theory Spec2Isabelle
  imports Main "HOL-Library.AList"
begin

section \<open>JavaScript values\<close>

text \<open>
  The configuration objects, the documents of the collections and the values read from
  them are JavaScript values. The embedding covers the values a configuration is made of:
  \<open>undefined\<close>, \<open>null\<close>, booleans, numbers (integer-valued), strings, arrays and plain
  objects. A plain object is the list of its own enumerable properties, a new property
  coming last; a well-formed object has no key twice. (The language enumerates the keys
  that are array indices first; the embedding keeps them where they were written, and
  the properties below read an object by key.) Members inherited from a prototype
  (\<open>constructor\<close>, \<open>toString\<close>, \<open>__proto__\<close>, the methods of arrays and strings) are outside
  the embedding of these values: a property name is taken not to be one of them. Values
  are trees, so no two of them share a mutable part and none is cyclic.

  The functions of lodash 4.17.21 (the version \<^verbatim>\<open>package.js\<close> depends on) that
  \<^verbatim>\<open>createConfig\<close> calls are embedded from the library's source, under their names
  there, on these values.
\<close>

datatype jsval =
    Undefined
  | Null
  | Bool bool
  | Num int
  | Str string
  | Arr "jsval list"
  | Obj "(string \<times> jsval) list"

subsection \<open>Strings\<close>

text \<open>\<^verbatim>\<open>String.prototype.split('.')\<close>: the empty string splits into one empty segment.\<close>

fun split :: "string \<Rightarrow> string list" where
  "split [] = [[]]"
| "split (c # cs) =
     (if c = CHR ''.'' then [] # split cs
      else (case split cs of w # ws \<Rightarrow> (c # w) # ws | [] \<Rightarrow> [[c]]))"

text \<open>\<^verbatim>\<open>Array.prototype.join('.')\<close> on an array of strings.\<close>

fun join :: "string list \<Rightarrow> string" where
  "join [] = []"
| "join [s] = s"
| "join (s # t # ts) = s @ CHR ''.'' # join (t # ts)"

text \<open>\<^verbatim>\<open>String(i)\<close> for an array index: decimal, no leading zero.\<close>

fun String :: "nat \<Rightarrow> string" where
  "String n =
     (if n < 10 then [''0123456789'' ! n]
      else String (n div 10) @ [''0123456789'' ! (n mod 10)])"

declare String.simps [simp del]

subsection \<open>lodash type predicates\<close>

fun isNil :: "jsval \<Rightarrow> bool" where
  "isNil Undefined = True"
| "isNil Null = True"
| "isNil _ = False"

fun isArray :: "jsval \<Rightarrow> bool" where
  "isArray (Arr _) = True"
| "isArray _ = False"

fun isPlainObject :: "jsval \<Rightarrow> bool" where
  "isPlainObject (Obj _) = True"
| "isPlainObject _ = False"

text \<open>\<^verbatim>\<open>_.isObject\<close>: the language type Object, here arrays and plain objects.\<close>

fun isObject :: "jsval \<Rightarrow> bool" where
  "isObject (Arr _) = True"
| "isObject (Obj _) = True"
| "isObject _ = False"

text \<open>JavaScript truthiness, as in \<^verbatim>\<open>if (source)\<close>.\<close>

fun truthy :: "jsval \<Rightarrow> bool" where
  "truthy Undefined = False"
| "truthy Null = False"
| "truthy (Bool b) = b"
| "truthy (Num n) = (n \<noteq> 0)"
| "truthy (Str s) = (s \<noteq> [])"
| "truthy _ = True"

text \<open>
  \<^verbatim>\<open>eq\<close> (SameValueZero): primitives compare by value, arrays and objects by reference.
  Two of them met in different places of the trees are never the same reference, so
  the embedding answers no for every array and object. Where lodash does compare a
  reference with itself, in \<^verbatim>\<open>assignMergeValue\<close> after the customizer gave back the
  destination's own value, the answer only decides whether a property is written again
  with the value it holds.
\<close>

fun eq :: "jsval \<Rightarrow> jsval \<Rightarrow> bool" where
  "eq (Arr _) _ = False"
| "eq (Obj _) _ = False"
| "eq a b = (a = b)"

subsection \<open>Properties\<close>

text \<open>
  The own enumerable properties of a value in \<^verbatim>\<open>for..in\<close> order, as lodash's
  \<^verbatim>\<open>keysIn\<close> lists them: the entries of a plain object, the indices of an array, the
  indices of a string (one character each); numbers and booleans have none.
\<close>

fun ownEntries :: "jsval \<Rightarrow> (string \<times> jsval) list" where
  "ownEntries (Obj kvs) = kvs"
| "ownEntries (Arr xs) = zip (map String [0..<length xs]) xs"
| "ownEntries (Str s) = zip (map String [0..<length s]) (map (\<lambda>c. Str [c]) s)"
| "ownEntries _ = []"

fun arrayLength :: "jsval \<Rightarrow> jsval" where
  "arrayLength (Arr xs) = Num (int (length xs))"
| "arrayLength (Str s) = Num (int (length s))"
| "arrayLength _ = Undefined"

text \<open>\<^verbatim>\<open>object[key]\<close> on a value that is neither \<open>undefined\<close> nor \<open>null\<close>.\<close>

definition getProp :: "jsval \<Rightarrow> string \<Rightarrow> jsval" where
  "getProp object key =
     (case map_of (ownEntries object) key of
        Some v \<Rightarrow> v
      | None \<Rightarrow> if key = ''length'' then arrayLength object else Undefined)"

text \<open>\<^verbatim>\<open>key in Object(object)\<close>.\<close>

definition hasProp :: "jsval \<Rightarrow> string \<Rightarrow> bool" where
  "hasProp object key =
     (if map_of (ownEntries object) key = None
      then key = ''length'' \<and> arrayLength object \<noteq> Undefined
      else True)"

text \<open>
  \<^verbatim>\<open>baseAssignValue\<close>, that is \<^verbatim>\<open>object[key] = value\<close>: an existing property keeps its
  place, a new one comes last. On an array, an index below the length replaces the
  element and the index equal to the length appends. A merge writes to an array only when
  it merges an array into it, index by index in increasing order, and then writes no
  other key; an array with other keys has no counterpart among the values.
\<close>

fun baseAssignValue :: "jsval \<Rightarrow> string \<Rightarrow> jsval \<Rightarrow> jsval" where
  "baseAssignValue (Obj kvs) key v = Obj (AList.update key v kvs)"
| "baseAssignValue (Arr xs) key v =
     (case List.find (\<lambda>i. String i = key) [0..<Suc (length xs)] of
        Some i \<Rightarrow> if i < length xs then Arr (xs[i := v]) else Arr (xs @ [v])
      | None \<Rightarrow> Arr xs)"
| "baseAssignValue object key v = object"

section \<open>lodash: \<^verbatim>\<open>_.get\<close>\<close>

subsection \<open>Parsing a property path\<close>

text \<open>\<^verbatim>\<open>reIsPlainProp = /^\w*$/\<close>.\<close>

definition isWordChar :: "char \<Rightarrow> bool" where
  "isWordChar c =
     (c \<in> set ''abcdefghijklmnopqrstuvwxyzABCDEFGHIJKLMNOPQRSTUVWXYZ0123456789_'')"

definition reIsPlainProp :: "string \<Rightarrow> bool" where
  "reIsPlainProp s = list_all isWordChar s"

text \<open>
  \<^verbatim>\<open>reIsDeepProp = /\.|\[(?:[^[\]]*|(["'])(?:(?!\1)[^\\]|\\.)*?\1)\]/\<close>: the string has a dot,
  or an opening bracket with a closing bracket somewhere after it (a match of the
  quoted alternative contains a match of the plain one).
\<close>

definition reIsDeepProp :: "string \<Rightarrow> bool" where
  "reIsDeepProp s =
     (CHR ''.'' \<in> set s \<or> CHR '']'' \<in> set (dropWhile (\<lambda>c. c \<noteq> CHR ''['') s))"

text \<open>
  \<^verbatim>\<open>rePropName = /[^.[\]]+|\[(?:(-?\d+(?:\.\d+)?)|(["'])((?:(?!\2)[^\\]|\\.)*?)\2)\]|(?=(?:\.|\[\])(?:\.|\[\]|$))/g\<close>.
  The three alternatives of one match at the head of the input: a run of characters
  other than \<^verbatim>\<open>. [ ]\<close>; a bracket holding a number or a quoted string; the empty match
  before a separator that is followed by a separator or by the end. The matchers of
  the second return the segment and the rest of the input.
\<close>

definition isPlainChar :: "char \<Rightarrow> bool" where
  "isPlainChar c = (c \<noteq> CHR ''.'' \<and> c \<noteq> CHR ''['' \<and> c \<noteq> CHR '']'')"

definition isDigit :: "char \<Rightarrow> bool" where
  "isDigit c = (c \<in> set ''0123456789'')"

text \<open>\<^verbatim>\<open>-?\d+(?:\.\d+)?\]\<close> after the opening bracket.\<close>

definition matchNumber :: "string \<Rightarrow> (string \<times> string) option" where
  "matchNumber cs =
     (let sign = takeWhile (\<lambda>c. c = CHR ''-'') (take 1 cs);
          r0 = drop (length sign) cs;
          d1 = takeWhile isDigit r0;
          r1 = dropWhile isDigit r0
      in if d1 = [] then None
         else (case r1 of
                 c # r2 \<Rightarrow>
                   if c = CHR '']'' then Some (sign @ d1, r2)
                   else if c = CHR ''.'' then
                     (let d2 = takeWhile isDigit r2; r3 = dropWhile isDigit r2
                      in if d2 = [] then None
                         else (case r3 of
                                 e # r4 \<Rightarrow>
                                   if e = CHR '']'' then Some (sign @ d1 @ CHR ''.'' # d2, r4)
                                   else None
                               | [] \<Rightarrow> None))
                   else None
               | [] \<Rightarrow> None))"

text \<open>
  \<^verbatim>\<open>((?:(?!\2)[^\\]|\\.)*?)\2\]\<close> after the opening quote \<open>q\<close>: characters up to the first
  quote that no backslash escapes, which a closing bracket must follow. A backslash takes
  the next character with it; the dot of the pattern matches no line terminator.
\<close>

fun matchQuoted :: "char \<Rightarrow> string \<Rightarrow> string \<Rightarrow> (string \<times> string) option" where
  "matchQuoted q acc [] = None"
| "matchQuoted q acc (c # cs) =
     (if c = q then
        (case cs of e # rest \<Rightarrow> if e = CHR '']'' then Some (rev acc, rest) else None
         | [] \<Rightarrow> None)
      else if c = CHR 0x5C then
        (case cs of
           d # rest \<Rightarrow>
             if d = CHR 0x0A \<or> d = CHR 0x0D then None else matchQuoted q (d # c # acc) rest
         | [] \<Rightarrow> None)
      else matchQuoted q (c # acc) cs)"

text \<open>\<^verbatim>\<open>subString.replace(/\\(\\)?/g, '$1')\<close>.\<close>

fun unescape :: "string \<Rightarrow> string" where
  "unescape [] = []"
| "unescape [c] = (if c = CHR 0x5C then [] else [c])"
| "unescape (c # d # cs) =
     (if c = CHR 0x5C then (if d = CHR 0x5C then d # unescape cs else unescape (d # cs))
      else c # unescape (d # cs))"

definition matchBracket :: "string \<Rightarrow> (string \<times> string) option" where
  "matchBracket cs =
     (case matchNumber cs of
        Some r \<Rightarrow> Some r
      | None \<Rightarrow>
          (case cs of
             q # rest \<Rightarrow>
               if q = CHR 0x22 \<or> q = CHR 0x27 then
                 (case matchQuoted q [] rest of
                    Some (s, rest') \<Rightarrow> Some (unescape s, rest')
                  | None \<Rightarrow> None)
               else None
           | [] \<Rightarrow> None))"

text \<open>\<^verbatim>\<open>(?=(?:\.|\[\])(?:\.|\[\]|$))\<close>.\<close>

fun atSeparator :: "string \<Rightarrow> string option" where
  "atSeparator (c # cs) =
     (if c = CHR ''.'' then Some cs
      else (case cs of d # ds \<Rightarrow> if c = CHR ''['' \<and> d = CHR '']'' then Some ds else None
            | [] \<Rightarrow> None))"
| "atSeparator [] = None"

definition emptyAhead :: "string \<Rightarrow> bool" where
  "emptyAhead cs =
     (case atSeparator cs of
        Some rest \<Rightarrow> rest = [] \<or> atSeparator rest \<noteq> None
      | None \<Rightarrow> False)"

lemma matchQuoted_shorter:
  "matchQuoted q acc cs = Some (s, rest) \<Longrightarrow> length rest < length cs"
proof (induction q acc cs rule: matchQuoted.induct)
  case (1 q acc)
  then show ?case by simp
next
  case (2 q acc c cs)
  show ?case
  proof (cases "c = q")
    case True
    with 2(3) show ?thesis by (auto split: list.splits if_splits)
  next
    case False
    note nq = this
    show ?thesis
    proof (cases "c = CHR 0x5C")
      case True
      with nq 2(3) obtain d r where cs: "cs = d # r" and nl: "\<not> (d = CHR 0x0A \<or> d = CHR 0x0D)"
        and m: "matchQuoted q (d # c # acc) r = Some (s, rest)"
        by (auto split: list.splits if_splits)
      from 2(1) [OF nq True cs nl m] cs show ?thesis by simp
    next
      case False
      with nq 2(3) have "matchQuoted q (c # acc) cs = Some (s, rest)" by simp
      from 2(2) [OF nq False this] show ?thesis by simp
    qed
  qed
qed

lemma matchNumber_shorter:
  assumes "matchNumber cs = Some (s, rest)"
  shows "length rest < length cs"
proof -
  define r0 where "r0 = drop (length (takeWhile (\<lambda>c. c = CHR ''-'') (take 1 cs))) cs"
  define r1 where "r1 = dropWhile isDigit r0"
  have r0: "length r0 \<le> length cs" by (simp add: r0_def)
  have r1: "length r1 \<le> length r0" unfolding r1_def by (rule length_dropWhile_le)
  from assms obtain c r2 where c: "r1 = c # r2"
    unfolding matchNumber_def Let_def r0_def [symmetric] r1_def [symmetric]
    by (cases r1) (simp_all split: if_splits)
  have r2: "length r2 < length cs" using c r0 r1 by simp
  show ?thesis
  proof (cases "c = CHR '']''")
    case True
    with assms c have "rest = r2"
      unfolding matchNumber_def Let_def r0_def [symmetric] r1_def [symmetric]
      by (simp split: if_splits)
    with r2 show ?thesis by simp
  next
    case False
    define r3 where "r3 = dropWhile isDigit r2"
    have r3: "length r3 \<le> length r2" unfolding r3_def by (rule length_dropWhile_le)
    from assms c False have "\<exists>e. r3 = e # rest"
      unfolding matchNumber_def Let_def r0_def [symmetric] r1_def [symmetric] r3_def
      by (simp split: if_splits list.splits)
    then obtain e where e: "r3 = e # rest" by blast
    with r3 r2 show ?thesis by simp
  qed
qed

lemma matchBracket_shorter:
  assumes "matchBracket cs = Some (s, rest)"
  shows "length rest < length cs"
proof (cases "matchNumber cs")
  case (Some r)
  with assms have "matchNumber cs = Some (s, rest)" by (simp add: matchBracket_def)
  then show ?thesis by (rule matchNumber_shorter)
next
  case None
  with assms obtain q r t where cs: "cs = q # r" and m: "matchQuoted q [] r = Some (t, rest)"
    by (auto simp: matchBracket_def split: list.splits if_splits option.splits)
  from matchQuoted_shorter [OF m] cs show ?thesis by simp
qed

text \<open>All matches of \<^verbatim>\<open>rePropName\<close> in the input, left to right (the \<^verbatim>\<open>g\<close> flag).\<close>

function rePropName :: "string \<Rightarrow> string list" where
  "rePropName [] = []"
| "rePropName (c # cs) =
     (if isPlainChar c then
        takeWhile isPlainChar (c # cs) # rePropName (dropWhile isPlainChar cs)
      else
        (case (if c = CHR ''['' then matchBracket cs else None) of
           Some (seg, rest) \<Rightarrow> seg # rePropName rest
         | None \<Rightarrow>
             if emptyAhead (c # cs) then [] # rePropName cs else rePropName cs))"
  by pat_completeness auto
termination
proof (relation "measure length")
  show "wf (measure length)" by simp
next
  fix c :: char and cs
  show "(dropWhile isPlainChar cs, c # cs) \<in> measure length"
    using length_dropWhile_le [of isPlainChar cs] by simp
next
  fix c :: char and cs x2 x y
  assume "(if c = CHR ''['' then matchBracket cs else None) = Some x2" "(x, y) = x2"
  then show "(y, c # cs) \<in> measure length"
    by (auto split: if_splits dest: matchBracket_shorter)
qed simp_all

text \<open>
  \<^verbatim>\<open>stringToPath\<close>: a leading dot gives an empty first segment, then every match is a
  segment:
  \<^verbatim>\<open>
  var result = [];
  if (string.charCodeAt(0) === 46 /* . */) { result.push(''); }
  string.replace(rePropName, function(match, number, quote, subString) {
    result.push(quote ? subString.replace(reEscapeChar, '$1') : (number || match));
  });
  return result;
  \<close>
\<close>

definition stringToPath :: "string \<Rightarrow> string list" where
  "stringToPath s = (if take 1 s = ''.'' then [[]] else []) @ rePropName s"

text \<open>
  \<^verbatim>\<open>isKey\<close> on a string, the whole string is one property name:
  \<^verbatim>\<open>reIsPlainProp.test(value) || !reIsDeepProp.test(value) ||
    (object != null && value in Object(object))\<close>;
  and \<^verbatim>\<open>castPath\<close>: \<^verbatim>\<open>isKey(value, object) ? [value] : stringToPath(toString(value))\<close>.
\<close>

definition isKey :: "string \<Rightarrow> jsval \<Rightarrow> bool" where
  "isKey s object =
     (if reIsPlainProp s then True
      else if reIsDeepProp s then (if isNil object then False else hasProp object s)
      else True)"

definition castPath :: "string \<Rightarrow> jsval \<Rightarrow> string list" where
  "castPath s object = (if isKey s object then [s] else stringToPath s)"

subsection \<open>Walking a path\<close>

text \<open>
  \<^verbatim>\<open>baseGet\<close>:
  \<^verbatim>\<open>
  path = castPath(path, object);
  var index = 0, length = path.length;
  while (object != null && index < length) {
    object = object[toKey(path[index++])];
  }
  return (index && index == length) ? object : undefined;
  \<close>
  The loop stops at \<open>undefined\<close> or \<open>null\<close>; the result is the value reached when every
  segment was used and there was at least one, else \<open>undefined\<close>. \<^verbatim>\<open>toKey\<close> leaves a
  string as it is.
\<close>

fun walk :: "jsval \<Rightarrow> string list \<Rightarrow> jsval" where
  "walk object [] = object"
| "walk object (key # path) =
     (if isNil object then Undefined else walk (getProp object key) path)"

definition baseGet :: "jsval \<Rightarrow> string list \<Rightarrow> jsval" where
  "baseGet object path = (if path = [] then Undefined else walk object path)"

text \<open>
  \<^verbatim>\<open>_.get(object, path)\<close> with no default value:
  \<^verbatim>\<open>object == null ? undefined : baseGet(object, path)\<close>, for a path that is an array of
  segments, and for a string, which \<^verbatim>\<open>castPath\<close> parses.
\<close>

definition get :: "jsval \<Rightarrow> string list \<Rightarrow> jsval" where
  "get object path = (if isNil object then Undefined else baseGet object path)"

definition getString :: "jsval \<Rightarrow> string \<Rightarrow> jsval" where
  "getString object s = get object (castPath s object)"

section \<open>lodash: \<^verbatim>\<open>_.mergeWith\<close>\<close>

text \<open>
  The customizer of a merge takes the value at a key of the destination and the value at
  that key of the source; the result \<open>undefined\<close> asks for the default merge.
  \<^verbatim>\<open>customizer ? customizer(objValue, srcValue, ...) : undefined\<close>.
\<close>

type_synonym customizer = "jsval \<Rightarrow> jsval \<Rightarrow> jsval"

definition callCustomizer :: "customizer option \<Rightarrow> jsval \<Rightarrow> jsval \<Rightarrow> jsval" where
  "callCustomizer customizer objValue srcValue =
     (case customizer of Some f \<Rightarrow> f objValue srcValue | None \<Rightarrow> Undefined)"

text \<open>
  \<^verbatim>\<open>assignMergeValue\<close>:
  \<^verbatim>\<open>
  if ((value !== undefined && !eq(object[key], value)) ||
      (value === undefined && !(key in object))) {
    baseAssignValue(object, key, value);
  }
  \<close>
\<close>

definition assignMergeValue :: "jsval \<Rightarrow> string \<Rightarrow> jsval \<Rightarrow> jsval" where
  "assignMergeValue object key v =
     (if (v \<noteq> Undefined \<and> \<not> eq (getProp object key) v)
         \<or> (v = Undefined \<and> \<not> hasProp object key)
      then baseAssignValue object key v
      else object)"

text \<open>
  \<^verbatim>\<open>isLength\<close>, \<^verbatim>\<open>isArrayLike\<close> (no configuration value is a function) and
  \<^verbatim>\<open>copyArray\<close> of an array-like object.
\<close>

fun isLength :: "jsval \<Rightarrow> bool" where
  "isLength (Num n) = (0 \<le> n \<and> n \<le> 9007199254740991)"
| "isLength _ = False"

definition isArrayLike :: "jsval \<Rightarrow> bool" where
  "isArrayLike v = (if isNil v then False else isLength (getProp v ''length''))"

fun copyArray :: "jsval \<Rightarrow> jsval" where
  "copyArray (Arr xs) = Arr xs"
| "copyArray object =
     (case getProp object ''length'' of
        Num n \<Rightarrow> Arr (map (\<lambda>i. getProp object (String i)) [0..<nat n])
      | _ \<Rightarrow> Arr [])"

text \<open>
  The measure of the recursion: the number of arrays and objects in a value. A merge
  descends from a source into the arrays and objects among its properties.
\<close>

fun nodes :: "jsval \<Rightarrow> nat" where
  "nodes (Arr xs) = Suc (sum_list (map nodes xs))"
| "nodes (Obj kvs) = Suc (sum_list (map (\<lambda>kv. nodes (snd kv)) kvs))"
| "nodes _ = 0"

definition entryNodes :: "(string \<times> jsval) list \<Rightarrow> nat" where
  "entryNodes props = sum_list (map (\<lambda>kv. nodes (snd kv)) props)"

lemma entryNodes_snd: "entryNodes props = sum_list (map nodes (map snd props))"
  by (induction props) (simp_all add: entryNodes_def)

lemma entryNodes_ownEntries: "entryNodes (ownEntries source) = nodes source - 1"
proof (cases source)
  case (Arr xs)
  have "map snd (zip (map String [0..<length xs]) xs) = xs"
    by (rule map_snd_zip) simp
  with Arr show ?thesis by (simp add: entryNodes_snd)
next
  case (Str s)
  have "map snd (zip (map String [0..<length s]) (map (\<lambda>c. Str [c]) s)) = map (\<lambda>c. Str [c]) s"
    by (rule map_snd_zip) simp
  moreover have "sum_list (map nodes (map (\<lambda>c. Str [c]) s)) = 0"
    by (induction s) simp_all
  ultimately show ?thesis using Str by (simp add: entryNodes_snd)
next
  case (Obj kvs)
  have "sum_list (map (\<lambda>kv. nodes (snd kv)) kvs) = sum_list (map nodes (map snd kvs))"
    by (induction kvs) simp_all
  with Obj show ?thesis by (simp add: entryNodes_snd)
qed (simp_all add: entryNodes_snd)

lemma entryNodes_Cons: "entryNodes ((key, v) # props) = nodes v + entryNodes props"
  by (simp add: entryNodes_def)

lemma isObject_nodes: "isObject v \<Longrightarrow> 0 < nodes v"
  by (cases v) simp_all

text \<open>
  \<^verbatim>\<open>baseMerge(object, source, srcIndex, customizer, stack)\<close> walks the properties of the
  source:
  \<^verbatim>\<open>
  baseFor(source, function(srcValue, key) {
    if (isObject(srcValue)) {
      baseMergeDeep(object, source, key, srcIndex, baseMerge, customizer, stack);
    } else {
      var newValue = customizer
        ? customizer(safeGet(object, key), srcValue, (key + ''), object, source, stack)
        : undefined;
      if (newValue === undefined) { newValue = srcValue; }
      assignMergeValue(object, key, newValue);
    }
  }, keysIn);
  \<close>
  \<^verbatim>\<open>baseMergeDeep\<close> takes the customizer's value when it gives one. Otherwise, for a
  source value that is an array it merges into the destination's array (a copy of an
  array-like destination value, a fresh array for any other), for a plain object into
  the destination's object (a fresh one where the destination holds no object); then it
  writes the result:
  \<^verbatim>\<open>
  var objValue = safeGet(object, key), srcValue = safeGet(source, key);
  var newValue = customizer ? customizer(objValue, srcValue, ...) : undefined;
  var isCommon = newValue === undefined;
  if (isCommon) {
    newValue = srcValue;
    if (isArray(srcValue)) {
      if (isArray(objValue)) newValue = objValue;
      else if (isArrayLikeObject(objValue)) newValue = copyArray(objValue);
      else newValue = [];
    } else if (isPlainObject(srcValue)) {
      newValue = objValue;
      if (!isObject(objValue) || isFunction(objValue)) newValue = initCloneObject(srcValue);
    } else isCommon = false;
  }
  if (isCommon) { mergeFunc(newValue, srcValue, srcIndex, customizer, stack); }
  assignMergeValue(object, key, newValue);
  \<close>
  (the branches for buffers, typed arrays and \<^verbatim>\<open>arguments\<close> objects left out). The
  destination is updated in place there and returned here. \<^verbatim>\<open>safeGet\<close> is the property
  read; the stack of lodash, which cuts cycles, has no part on trees.
\<close>

function baseMerge :: "customizer option \<Rightarrow> jsval \<Rightarrow> jsval \<Rightarrow> jsval"
  and baseFor :: "customizer option \<Rightarrow> jsval \<Rightarrow> (string \<times> jsval) list \<Rightarrow> jsval"
  and baseMergeDeep :: "customizer option \<Rightarrow> jsval \<Rightarrow> string \<Rightarrow> jsval \<Rightarrow> jsval"
where
  "baseMerge customizer object source = baseFor customizer object (ownEntries source)"
| "baseFor customizer object [] = object"
| "baseFor customizer object ((key, srcValue) # props) =
     baseFor customizer
       (if isObject srcValue then baseMergeDeep customizer object key srcValue
        else (let newValue = callCustomizer customizer (getProp object key) srcValue
              in assignMergeValue object key
                   (if newValue = Undefined then srcValue else newValue)))
       props"
| "baseMergeDeep customizer object key srcValue =
     (let objValue = getProp object key;
          newValue = callCustomizer customizer objValue srcValue
      in if newValue \<noteq> Undefined then assignMergeValue object key newValue
         else if isArray srcValue then
           assignMergeValue object key
             (baseMerge customizer
                (if isArray objValue then objValue
                 else if isObject objValue \<and> isArrayLike objValue then copyArray objValue
                 else Arr [])
                srcValue)
         else
           assignMergeValue object key
             (baseMerge customizer (if isObject objValue then objValue else Obj []) srcValue))"
  by pat_completeness auto
termination
  apply (relation "measures
    [\<lambda>x. case x of
        Inl (c, object, source) \<Rightarrow> nodes source - 1
      | Inr (Inl (c, object, props)) \<Rightarrow> entryNodes props
      | Inr (Inr (c, object, key, srcValue)) \<Rightarrow> nodes srcValue - 1,
     \<lambda>x. case x of Inl _ \<Rightarrow> 1 | Inr (Inl _) \<Rightarrow> 0 | Inr (Inr _) \<Rightarrow> 2,
     \<lambda>x. case x of Inr (Inl (c, object, props)) \<Rightarrow> length props | _ \<Rightarrow> 0]")
  subgoal by simp
  subgoal by (simp add: entryNodes_ownEntries)
  subgoal by (frule isObject_nodes) (simp add: entryNodes_Cons)
  subgoal for customizer object key srcValue props
    by (cases "nodes srcValue") (simp_all add: entryNodes_Cons)
  subgoal by simp
  subgoal by simp
  done

text \<open>The function given to \<^verbatim>\<open>baseFor\<close>, one turn of the loop of \<^verbatim>\<open>baseMerge\<close>, on the property \<open>(key, srcValue)\<close>.\<close>

definition iteratee :: "customizer option \<Rightarrow> jsval \<Rightarrow> string \<Rightarrow> jsval \<Rightarrow> jsval" where
  "iteratee c object key srcValue =
     (if isObject srcValue then baseMergeDeep c object key srcValue
      else (let newValue = callCustomizer c (getProp object key) srcValue
            in assignMergeValue object key
                 (if newValue = Undefined then srcValue else newValue)))"

text \<open>
  \<^verbatim>\<open>isIterateeCall(value, index, object)\<close>: lodash's test for a call made by an iteratee
  such as \<^verbatim>\<open>_.map\<close>, which passes the element, its index and the collection:
  \<^verbatim>\<open>
  if (!isObject(object)) { return false; }
  var type = typeof index;
  if (type == 'number'
        ? (isArrayLike(object) && isIndex(index, object.length))
        : (type == 'string' && index in object)) {
    return eq(object[index], value);
  }
  return false;
  \<close>
\<close>

definition isIterateeCall :: "jsval \<Rightarrow> jsval \<Rightarrow> jsval \<Rightarrow> bool" where
  "isIterateeCall v index object =
     (if isObject object then
        (case index of
           Num n \<Rightarrow>
             (case getProp object ''length'' of
                Num len \<Rightarrow>
                  if isLength (Num len) \<and> 0 \<le> n \<and> n < len
                  then eq (getProp object (String (nat n))) v
                  else False
              | _ \<Rightarrow> False)
         | Str s \<Rightarrow> if hasProp object s then eq (getProp object s) v else False
         | _ \<Rightarrow> False)
      else False)"

text \<open>
  The errors a call of \<^verbatim>\<open>createConfig\<close> ends with. The source throws \<^verbatim>\<open>Error\<close> objects that differ in their
  message; they are named here after the condition:
  \<^item> \<open>InvalidPathError\<close>: "path should be a string or an array";
  \<^item> \<open>InvalidProviderError\<close>: "collection should either be a function or a Meteor
    Collection";
  \<^item> \<open>InvalidSelectorError\<close>: "selector should either be a function or an object";
  \<^item> \<open>InvalidPathPrefixError\<close>: "keyPrefix should be a string or an array";
  \<^item> \<open>UndefinedStaticFallbackError\<close>: "Configuration needs to be defined for staticPart
    at path";
  \<^item> \<open>TypeError\<close>: the language's own error, for calling what is not a function and for
    reading \<^verbatim>\<open>caller\<close> or \<^verbatim>\<open>arguments\<close> of an arrow function.
\<close>

datatype error =
    InvalidPathError
  | InvalidProviderError
  | InvalidSelectorError
  | InvalidPathPrefixError
  | UndefinedStaticFallbackError
  | TypeError

text \<open>
  The same test when the third argument is the customizer itself, the arrow function of
  lines 89-103 with its two parameters and no name. A function is not array-like, so a
  number as index answers no. For a string, \<^verbatim>\<open>index in object\<close> and \<^verbatim>\<open>object[index]\<close>
  go through the function's own properties and its prototypes: \<^verbatim>\<open>length\<close> is 2 and
  \<^verbatim>\<open>name\<close> is the empty string; reading \<^verbatim>\<open>caller\<close> or \<^verbatim>\<open>arguments\<close> of an arrow function
  throws a \<open>TypeError\<close>; every other member found there (\<^verbatim>\<open>call\<close>, \<^verbatim>\<open>constructor\<close>,
  \<^verbatim>\<open>__proto__\<close>, ...) is a function or an object, which no configuration value is \<^verbatim>\<open>eq\<close>
  to.
\<close>

definition isIterateeCallOnCustomizer :: "jsval \<Rightarrow> jsval \<Rightarrow> error + bool" where
  "isIterateeCallOnCustomizer v index =
     (case index of
        Str s \<Rightarrow>
          if s = ''length'' then Inr (eq (Num 2) v)
          else if s = ''name'' then Inr (eq (Str []) v)
          else if s = ''caller'' \<or> s = ''arguments'' then Inl TypeError
          else Inr False
      | _ \<Rightarrow> Inr False)"

text \<open>
  \<^verbatim>\<open>_.mergeWith(object, ...sources, customizer)\<close>, as \<^verbatim>\<open>createAssigner\<close> builds it:
  \<^verbatim>\<open>
  var index = -1, length = sources.length,
      customizer = length > 1 ? sources[length - 1] : undefined,
      guard = length > 2 ? sources[2] : undefined;
  customizer = (assigner.length > 3 && typeof customizer == 'function')
    ? (length--, customizer) : undefined;
  if (guard && isIterateeCall(sources[0], sources[1], guard)) {
    customizer = length < 3 ? undefined : customizer;
    length = 1;
  }
  object = Object(object);
  while (++index < length) {
    var source = sources[index];
    if (source) { assigner(object, source, index, customizer); }
  }
  return object;
  \<close>
  There \<^verbatim>\<open>sources\<close> ends with the customizer; here \<open>sources\<close> are the values before it.
  The guard is the third argument after \<open>object\<close>: the third source, or the customizer
  when there are two sources. When the first three look like an iteratee call, only the
  first source is merged, and without the customizer unless there are three sources or
  more. A source that is not truthy is skipped. \<open>guarded\<close> is the test of the
  \<^verbatim>\<open>if\<close>; the error it may throw ends the merge.
\<close>

definition guarded :: "jsval list \<Rightarrow> error + bool" where
  "guarded sources =
     (case sources of
        v # index # guard # _ \<Rightarrow>
          Inr (if truthy guard then isIterateeCall v index guard else False)
      | [v, index] \<Rightarrow> isIterateeCallOnCustomizer v index
      | _ \<Rightarrow> Inr False)"

definition mergeWith :: "jsval \<Rightarrow> jsval list \<Rightarrow> customizer \<Rightarrow> error + jsval" where
  "mergeWith object sources customizer =
     (case guarded sources of
        Inl e \<Rightarrow> Inl e
      | Inr g \<Rightarrow>
          (let customizer' = (if g \<and> length sources < 3 then None else Some customizer);
               length' = (if g then 1 else length sources)
           in Inr (foldl (\<lambda>object source.
                            if truthy source then baseMerge customizer' object source
                            else object)
                     object (take length' sources))))"

section \<open>\<^verbatim>\<open>createConfig\<close>\<close>

subsection \<open>Arguments\<close>

text \<open>
  A path argument (\<^verbatim>\<open>path\<close>, \<^verbatim>\<open>pathPrefix\<close>): a string, an array of string segments,
  \<open>undefined\<close>, or a value of any other type.
\<close>

datatype path = PString string | PArray "string list" | PUndefined | POther

text \<open>
  What \<^verbatim>\<open>collection\<close> may hold. A handle is a value that is not a function: whether its
  \<^verbatim>\<open>find\<close> member is truthy, and its \<^verbatim>\<open>findOne\<close> method when it has one. The method
  takes the selector and, on the client, the one field the query is restricted to; it
  returns the document or \<open>undefined\<close>. A collection given as a function takes the options.
\<close>

record handle =
  hasFind :: bool
  findOne :: "(jsval \<Rightarrow> string option \<Rightarrow> jsval) option"

datatype collection = CollectionFunction "jsval \<Rightarrow> handle" | CollectionValue handle

datatype selector = SelectorFunction "jsval \<Rightarrow> jsval" | SelectorValue jsval

text \<open>An element of \<^verbatim>\<open>dynamicPart\<close>: \<^verbatim>\<open>{collection, selector, pathPrefix}\<close>.\<close>

record spec =
  collection :: collection
  selector :: selector
  pathPrefix :: path

subsection \<open>The resolution\<close>

text \<open>
  Lines 39-43 and 61-65: \<^verbatim>\<open>_.isString(p) ? p.split('.') : _.isArray(p) ? p :
  _.isUndefined(p) ? [] : new Error(...)\<close>; \<open>None\<close> stands for the \<^verbatim>\<open>Error\<close> object, which
  the next line throws.
\<close>

fun segments :: "path \<Rightarrow> string list option" where
  "segments (PString s) = Some (split s)"
| "segments (PArray xs) = Some xs"
| "segments PUndefined = Some []"
| "segments POther = None"

text \<open>
  Lines 47-77, the function mapped over \<^verbatim>\<open>dynamicPart\<close>. \<open>collection'\<close> holds a handle or
  the \<^verbatim>\<open>Error\<close> object made at line 53 (\<open>Inl\<close>); nothing throws that object, and the
  call of its missing \<^verbatim>\<open>findOne\<close> at line 73 or 74 is a \<open>TypeError\<close>.
\<close>

definition valueFromDb :: "bool \<Rightarrow> jsval \<Rightarrow> string list \<Rightarrow> spec \<Rightarrow> error + jsval" where
  "valueFromDb isClient opts path' spec =
     (let collection' =
            (case collection spec of
               CollectionFunction f \<Rightarrow> Inr (f opts)
             | CollectionValue c \<Rightarrow> if hasFind c then Inr c else Inl InvalidProviderError);
          selector' =
            (case selector spec of
               SelectorFunction f \<Rightarrow> Inr (f opts)
             | SelectorValue s \<Rightarrow> if isPlainObject s then Inr s else Inl InvalidSelectorError)
      in case selector' of
           Inl e \<Rightarrow> Inl e
         | Inr sel \<Rightarrow>
             (case segments (pathPrefix spec) of
                None \<Rightarrow> Inl InvalidPathPrefixError
              | Some pathPrefix' \<Rightarrow>
                  (let pathInDocument = join (pathPrefix' @ path')
                   in case collection' of
                        Inl e \<Rightarrow> Inl TypeError
                      | Inr c \<Rightarrow>
                          (case findOne c of
                             None \<Rightarrow> Inl TypeError
                           | Some f \<Rightarrow>
                               Inr (getString
                                      (f sel (if isClient then Some pathInDocument else None))
                                      pathInDocument)))))"

text \<open>\<^verbatim>\<open>_(dynamicPart).map(...)\<close>: in order; the first throw ends the call.\<close>

fun mapSpecs :: "(spec \<Rightarrow> error + jsval) \<Rightarrow> spec list \<Rightarrow> error + jsval list" where
  "mapSpecs f [] = Inr []"
| "mapSpecs f (spec # specs) =
     (case f spec of
        Inl e \<Rightarrow> Inl e
      | Inr v \<Rightarrow> (case mapSpecs f specs of Inl e \<Rightarrow> Inl e | Inr vs \<Rightarrow> Inr (v # vs)))"

text \<open>Lines 46-79: \<^verbatim>\<open>.filter(_.negate(_.isNil)).value()\<close> after the map.\<close>

definition valuesFromDb ::
  "bool \<Rightarrow> jsval \<Rightarrow> string list \<Rightarrow> spec list \<Rightarrow> error + jsval list" where
  "valuesFromDb isClient opts path' dynamicPart =
     (case mapSpecs (valueFromDb isClient opts path') dynamicPart of
        Inl e \<Rightarrow> Inl e
      | Inr vs \<Rightarrow> Inr (filter (\<lambda>v. \<not> isNil v) vs))"

text \<open>
  \<^verbatim>\<open>Array.prototype.concat\<close> with one argument: an array argument contributes its
  elements, any other value itself.
\<close>

fun concat_array :: "jsval list \<Rightarrow> jsval \<Rightarrow> jsval list" where
  "concat_array xs (Arr ys) = xs @ ys"
| "concat_array xs v = xs @ [v]"

text \<open>Line 88: \<^verbatim>\<open>_.reverse(valuesFromDb.concat(valueFromStaticPart))\<close>.\<close>

definition allValues :: "jsval list \<Rightarrow> jsval \<Rightarrow> jsval list" where
  "allValues values valueFromStaticPart = rev (concat_array values valueFromStaticPart)"

text \<open>Lines 89-103, the customizer given to \<^verbatim>\<open>_.mergeWith\<close>.\<close>

definition customizer :: "jsval \<Rightarrow> jsval \<Rightarrow> jsval" where
  "customizer left right =
     (if isArray right then right
      else if isArray left then (if isNil right then left else right)
      else Undefined)"

text \<open>
  \<^verbatim>\<open>createConfig(staticPart, dynamicPart)(path, opts, config)\<close>. \<open>isClient\<close> is
  \<^verbatim>\<open>Meteor.isClient\<close>. An \<open>undefined\<close> argument takes its default: \<^verbatim>\<open>opts = {}\<close>,
  \<^verbatim>\<open>config = staticPart\<close>.
\<close>

definition createConfig ::
  "bool \<Rightarrow> jsval \<Rightarrow> spec list \<Rightarrow> path \<Rightarrow> jsval \<Rightarrow> jsval \<Rightarrow> error + jsval" where
  "createConfig isClient staticPart dynamicPart path optsArg configArg =
     (let opts = (if optsArg = Undefined then Obj [] else optsArg);
          config = (if configArg = Undefined then staticPart else configArg)
      in case segments path of
           None \<Rightarrow> Inl InvalidPathError
         | Some path' \<Rightarrow>
             (case valuesFromDb isClient opts path' dynamicPart of
                Inl e \<Rightarrow> Inl e
              | Inr values \<Rightarrow>
                  if values \<noteq> [] then
                    (let valueFromStaticPart = get config path'
                     in if isNil valueFromStaticPart then Inl UndefinedStaticFallbackError
                        else mergeWith (Obj [])
                               (allValues values valueFromStaticPart) customizer)
                  else Inr (get config path')))"

section \<open>The path lookup of the specification\<close>

text \<open>
  The plain lookup of a path in a configuration, as the specification words it: a path
  is "an ordered sequence of string segments identifying a location in a nested
  mapping", the "empty sequence denotes the root", and the value is "absent if ... the
  path is not present". A segment selects the entry of that key in a mapping. The
  specification names no other container; an array or a string met on the way is read
  as the language reads a property of it (an index or the length), and no other value
  has a member. This definition is the one the resolution is compared with; it is not
  part of the embedding of the source.
\<close>

fun specLookup :: "jsval \<Rightarrow> string list \<Rightarrow> jsval" where
  "specLookup v [] = v"
| "specLookup (Obj kvs) (segment # path) =
     (case map_of kvs segment of Some w \<Rightarrow> specLookup w path | None \<Rightarrow> Undefined)"
| "specLookup (Arr xs) (segment # path) = specLookup (getProp (Arr xs) segment) path"
| "specLookup (Str s) (segment # path) = specLookup (getProp (Str s) segment) path"
| "specLookup v (segment # path) = Undefined"

text \<open>Segments that a dotted string can spell: none of them holds a dot.\<close>

definition dotFree :: "string list \<Rightarrow> bool" where
  "dotFree path = list_all (\<lambda>segment. CHR ''.'' \<notin> set segment) path"

section \<open>The example of the documentation\<close>

text \<open>
  Lines 20-35: the defaults, the document of the current user, the collection, which
  finds that document whatever the selector, and the one element of \<^verbatim>\<open>dynamicPart\<close>.
\<close>

definition defaults :: jsval where
  "defaults =
     Obj [(''screen'', Obj [(''height'', Str ''large''), (''width'', Str ''medium'')])]"

definition userDocument :: jsval where
  "userDocument =
     Obj [(''_id'', Str ''current/user/id''),
          (''settings'', Obj [(''screen'', Obj [(''height'', Str ''small'')])])]"

definition users :: handle where
  "users = \<lparr>hasFind = True, findOne = Some (\<lambda>selector fields. userDocument)\<rparr>"

definition usersSpec :: spec where
  "usersSpec =
     \<lparr>collection = CollectionValue users,
      selector = SelectorFunction (\<lambda>opts. Obj [(''_id'', Str ''current/user/id'')]),
      pathPrefix = PArray [''settings'']\<rparr>"

text \<open>A collection that finds the given document whatever the selector, with no prefix.\<close>

definition documentSpec :: "jsval \<Rightarrow> spec" where
  "documentSpec document =
     \<lparr>collection =
        CollectionValue \<lparr>hasFind = True, findOne = Some (\<lambda>selector fields. document)\<rparr>,
      selector = SelectorValue (Obj []),
      pathPrefix = PUndefined\<rparr>"

section \<open>Properties of the resolution\<close>

subsection \<open>The layers\<close>

lemma valuesFromDb_Nil: "valuesFromDb isClient opts path' [] = Inr []"
  by (simp add: valuesFromDb_def)


lemma mapSpecs_total:
  assumes "\<forall>spec\<in>set specs. \<exists>v. f spec = Inr v"
  shows "mapSpecs f specs = Inr (map (\<lambda>spec. projr (f spec)) specs)"
  using assms by (induction specs) auto

lemma mapSpecs_never:
  assumes "\<And>spec. f spec \<noteq> Inl e"
  shows "mapSpecs f specs \<noteq> Inl e"
proof (induction specs)
  case Nil
  show ?case by simp
next
  case (Cons spec specs)
  with assms [of spec] show ?case by (auto split: sum.splits)
qed

lemma valueFromDb_never_InvalidProviderError:
  "valueFromDb isClient opts path' spec \<noteq> Inl InvalidProviderError"
  by (simp add: valueFromDb_def Let_def split: collection.splits selector.splits
      sum.splits option.splits)

lemma valuesFromDb_some_value:
  assumes all: "\<forall>spec\<in>set dynamicPart. \<exists>v. valueFromDb isClient opts path' spec = Inr v"
      and one: "spec \<in> set dynamicPart" "valueFromDb isClient opts path' spec = Inr v"
        "\<not> isNil v"
  shows "\<exists>vs. valuesFromDb isClient opts path' dynamicPart = Inr vs \<and> vs \<noteq> []"
proof -
  let ?f = "valueFromDb isClient opts path'"
  have "v \<in> set (map (\<lambda>spec. projr (?f spec)) dynamicPart)"
    using one by force
  with one(3) have "filter (\<lambda>v. \<not> isNil v) (map (\<lambda>spec. projr (?f spec)) dynamicPart) \<noteq> []"
    by (auto simp: filter_empty_conv)
  with mapSpecs_total [OF all] show ?thesis
    by (simp add: valuesFromDb_def)
qed


lemma static_nil_fails:
  assumes path: "segments path = Some path'"
      and opts: "opts' = (if opts = Undefined then Obj [] else opts)"
      and all: "\<forall>spec\<in>set dynamicPart. \<exists>v. valueFromDb isClient opts' path' spec = Inr v"
      and one: "spec \<in> set dynamicPart" "valueFromDb isClient opts' path' spec = Inr v"
        "\<not> isNil v"
      and static: "isNil (get staticPart path')"
  shows "createConfig isClient staticPart dynamicPart path opts Undefined
           = Inl UndefinedStaticFallbackError"
proof -
  from valuesFromDb_some_value [OF all one]
  obtain vs where "valuesFromDb isClient opts' path' dynamicPart = Inr vs" "vs \<noteq> []"
    by blast
  with path opts static show ?thesis
    by (simp add: createConfig_def)
qed

lemma allValues_not_array:
  "\<not> isArray valueFromStaticPart \<Longrightarrow>
     allValues values valueFromStaticPart = valueFromStaticPart # rev values"
  by (cases valueFromStaticPart) (simp_all add: allValues_def)

subsection \<open>Paths and the lookup\<close>

lemma split_dotless: "CHR ''.'' \<notin> set s \<Longrightarrow> split s = [s]"
  by (induction s) auto

lemma split_append_dot:
  "CHR ''.'' \<notin> set s \<Longrightarrow> split (s @ CHR ''.'' # t) = s # split t"
  by (induction s) auto

lemma split_join:
  "path \<noteq> [] \<Longrightarrow> dotFree path \<Longrightarrow> split (join path) = path"
proof (induction path rule: join.induct)
  case 1
  then show ?case by simp
next
  case (2 s)
  then show ?case by (simp add: dotFree_def split_dotless)
next
  case (3 s t ts)
  then show ?case by (simp add: dotFree_def split_append_dot)
qed

lemma walk_Undefined: "walk Undefined path = Undefined"
  by (cases path) simp_all

lemma walk_specLookup: "walk v path = specLookup v path"
proof (induction v path rule: specLookup.induct)
  case (1 v)
  show ?case by simp
next
  case (2 kvs segment path)
  then show ?case
    by (cases "map_of kvs segment") (simp_all add: getProp_def walk_Undefined)
qed (simp_all add: getProp_def walk_Undefined)

lemma get_specLookup:
  assumes "path \<noteq> []"
  shows "get v path = specLookup v path"
proof (cases "isNil v")
  case True
  with assms show ?thesis
    by (cases v; cases path) (simp_all add: get_def)
next
  case False
  with assms show ?thesis
    by (simp add: get_def baseGet_def walk_specLookup)
qed

subsection \<open>The merge\<close>

lemma getProp_Obj:
  "getProp (Obj kvs) key = (case map_of kvs key of Some v \<Rightarrow> v | None \<Rightarrow> Undefined)"
  by (simp add: getProp_def split: option.splits)

lemma eq_Arr: "eq a (Arr xs) = False"
  by (cases a) simp_all

lemma assignMergeValue_Obj:
  "assignMergeValue (Obj kvs) k w = Obj kvs
   \<or> assignMergeValue (Obj kvs) k w = Obj (AList.update k w kvs)"
  by (simp add: assignMergeValue_def)

lemma assignMergeValue_other_key:
  assumes "k \<noteq> key"
  shows "\<exists>kvs'. assignMergeValue (Obj kvs) k w = Obj kvs' \<and> map_of kvs' key = map_of kvs key"
  using assignMergeValue_Obj [of kvs k w] assms
  by (auto simp: update_conv')

lemma assignMergeValue_array:
  "assignMergeValue (Obj kvs) key (Arr xs) = Obj (AList.update key (Arr xs) kvs)"
  by (simp add: assignMergeValue_def eq_Arr)

lemma baseMergeDeep_assigns:
  "baseMergeDeep c object key srcValue =
     assignMergeValue object key
       (let objValue = getProp object key;
            newValue = callCustomizer c objValue srcValue
        in if newValue \<noteq> Undefined then newValue
           else if isArray srcValue then
             baseMerge c
               (if isArray objValue then objValue
                else if isObject objValue \<and> isArrayLike objValue then copyArray objValue
                else Arr [])
               srcValue
           else baseMerge c (if isObject objValue then objValue else Obj []) srcValue)"
  by (simp add: Let_def)

declare baseMergeDeep.simps [simp del] baseMerge.simps [simp del]

lemma baseFor_Cons [simp]:
  "baseFor c object ((key, srcValue) # props) = baseFor c (iteratee c object key srcValue) props"
  by (simp add: iteratee_def)

declare baseFor.simps(2) [simp del]

lemma iteratee_assigns: "\<exists>w. iteratee c object key srcValue = assignMergeValue object key w"
proof (cases "isObject srcValue")
  case True
  then have "iteratee c object key srcValue = baseMergeDeep c object key srcValue"
    by (simp add: iteratee_def)
  then show ?thesis
    unfolding baseMergeDeep_assigns by blast
next
  case False
  then show ?thesis
    unfolding iteratee_def Let_def by auto
qed

lemma iteratee_Obj: "\<exists>kvs'. iteratee c (Obj kvs) key srcValue = Obj kvs'"
  using iteratee_assigns [of c "Obj kvs" key srcValue] assignMergeValue_Obj [of kvs key]
  by metis

lemma baseFor_Obj: "\<exists>kvs'. baseFor c (Obj kvs) props = Obj kvs'"
proof (induction props arbitrary: kvs)
  case Nil
  show ?case by simp
next
  case (Cons kv props)
  obtain key srcValue where kv: "kv = (key, srcValue)" by (cases kv)
  obtain kvs1 where "iteratee c (Obj kvs) key srcValue = Obj kvs1"
    using iteratee_Obj by blast
  with Cons.IH [of kvs1] kv show ?case by simp
qed

lemma customizer_keeps_array: "isNil v \<Longrightarrow> customizer (Arr xs) v = Arr xs"
  by (cases v) (simp_all add: customizer_def)

lemma customizer_takes_array: "customizer v (Arr xs) = Arr xs"
  by (simp add: customizer_def)

lemma baseFor_preserves_array:
  assumes "map_of okvs key = Some (Arr xs)"
      and "\<forall>v. (key, v) \<in> set props \<longrightarrow> isNil v"
  shows "\<exists>okvs'. baseFor (Some customizer) (Obj okvs) props = Obj okvs'
           \<and> map_of okvs' key = Some (Arr xs)"
  using assms
proof (induction props arbitrary: okvs)
  case Nil
  then show ?case by simp
next
  case (Cons kv props)
  obtain k v where kv: "kv = (k, v)" by (cases kv)
  have step: "\<exists>kvs1. iteratee (Some customizer) (Obj okvs) k v = Obj kvs1
                \<and> map_of kvs1 key = Some (Arr xs)"
  proof (cases "k = key")
    case True
    with Cons.prems(2) kv have nil: "isNil v" by simp
    then have "\<not> isObject v" by (cases v) simp_all
    with nil True Cons.prems(1)
    have "iteratee (Some customizer) (Obj okvs) k v = Obj (AList.update key (Arr xs) okvs)"
      by (simp add: iteratee_def callCustomizer_def getProp_Obj customizer_keeps_array
          assignMergeValue_array)
    then show ?thesis by (simp add: update_conv')
  next
    case False
    obtain w where "iteratee (Some customizer) (Obj okvs) k v = assignMergeValue (Obj okvs) k w"
      using iteratee_assigns by blast
    with assignMergeValue_other_key [OF False, of okvs w] Cons.prems(1)
    show ?thesis by auto
  qed
  then obtain kvs1 where o: "iteratee (Some customizer) (Obj okvs) k v = Obj kvs1"
    and m: "map_of kvs1 key = Some (Arr xs)"
    by blast
  have rest: "\<forall>v. (key, v) \<in> set props \<longrightarrow> isNil v"
    using Cons.prems(2) by simp
  from Cons.IH [OF m rest] o kv show ?case by simp
qed

lemma baseMerge_Obj: "\<exists>kvs'. baseMerge c (Obj kvs) source = Obj kvs'"
  using baseFor_Obj by (simp add: baseMerge.simps)

lemma foldl_merge_Obj:
  "\<exists>kvs'. foldl (\<lambda>object source. if truthy source then baseMerge c object source else object)
            (Obj kvs) sources = Obj kvs'"
proof (induction sources arbitrary: kvs)
  case Nil
  show ?case by simp
next
  case (Cons source sources)
  obtain kvs1 where "baseMerge c (Obj kvs) source = Obj kvs1"
    using baseMerge_Obj by blast
  with Cons.IH [of kvs1] Cons.IH [of kvs] show ?case by simp
qed

lemma isIterateeCallOnCustomizer_error:
  "isIterateeCallOnCustomizer v index = Inl e \<Longrightarrow> e = TypeError"
  by (cases index) (simp_all add: isIterateeCallOnCustomizer_def split: if_splits)

lemma guarded_error:
  assumes "guarded sources = Inl e"
  shows "e = TypeError"
proof (cases sources)
  case Nil
  with assms show ?thesis by (simp add: guarded_def)
next
  case (Cons v rest)
  show ?thesis
  proof (cases rest)
    case Nil
    with Cons assms show ?thesis by (simp add: guarded_def)
  next
    case (Cons index rest')
    with \<open>sources = v # rest\<close> assms show ?thesis
      by (cases rest') (simp_all add: guarded_def isIterateeCallOnCustomizer_error)
  qed
qed

lemma mergeWith_plain_object:
  "(\<exists>kvs. mergeWith (Obj []) sources c = Inr (Obj kvs))
   \<or> mergeWith (Obj []) sources c = Inl TypeError"
proof (cases "guarded sources")
  case (Inl e)
  with guarded_error [OF Inl] show ?thesis by (simp add: mergeWith_def)
next
  case (Inr g)
  then show ?thesis
    unfolding mergeWith_def Let_def using foldl_merge_Obj by simp
qed

lemma isPlainObject_truthy: "isPlainObject v \<Longrightarrow> truthy v"
  by (cases v) simp_all

lemma mergeWith_objects:
  assumes "\<forall>source\<in>set sources. isPlainObject source"
  shows "mergeWith object sources c
           = Inr (foldl (\<lambda>object source. baseMerge (Some c) object source) object sources)"
proof -
  have t: "\<forall>source\<in>set sources. truthy source"
    using assms isPlainObject_truthy by blast
  have guard: "guarded sources = Inr False"
  proof (cases sources)
    case Nil
    then show ?thesis by (simp add: guarded_def)
  next
    case (Cons v rest)
    show ?thesis
    proof (cases rest)
      case Nil
      with Cons show ?thesis by (simp add: guarded_def)
    next
      case (Cons index rest')
      with \<open>sources = v # rest\<close> assms have "isPlainObject index" by simp
      then obtain kvs where "index = Obj kvs" by (cases index) simp_all
      with Cons \<open>sources = v # rest\<close> show ?thesis
        by (cases rest')
           (simp_all add: guarded_def isIterateeCall_def isIterateeCallOnCustomizer_def)
    qed
  qed
  have "foldl (\<lambda>object source. if truthy source then baseMerge (Some c) object source else object)
          object sources
        = foldl (\<lambda>object source. baseMerge (Some c) object source) object sources"
    using t by (induction sources arbitrary: object) simp_all
  then show ?thesis
    unfolding mergeWith_def Let_def guard by simp
qed

lemma baseFor_puts_array:
  assumes "distinct (map fst props)" and "map_of props key = Some (Arr xs)"
  shows "\<exists>okvs'. baseFor (Some customizer) (Obj okvs) props = Obj okvs'
           \<and> map_of okvs' key = Some (Arr xs)"
  using assms
proof (induction props arbitrary: okvs)
  case Nil
  then show ?case by simp
next
  case (Cons kv props)
  obtain k v where kv: "kv = (k, v)" by (cases kv)
  show ?case
  proof (cases "k = key")
    case True
    with Cons.prems(2) kv have v: "v = Arr xs" by simp
    have "iteratee (Some customizer) (Obj okvs) key (Arr xs)
            = Obj (AList.update key (Arr xs) okvs)"
      by (simp add: iteratee_def baseMergeDeep_assigns callCustomizer_def
          customizer_takes_array assignMergeValue_array)
    moreover have "map_of (AList.update key (Arr xs) okvs) key = Some (Arr xs)"
      by (simp add: update_conv')
    moreover have "\<forall>w. (key, w) \<in> set props \<longrightarrow> isNil w"
      using Cons.prems(1) kv True by (auto simp: image_iff)
    ultimately show ?thesis
      using baseFor_preserves_array [of "AList.update key (Arr xs) okvs" key xs props]
        kv True v
      by simp
  next
    case False
    obtain kvs1 where "iteratee (Some customizer) (Obj okvs) k v = Obj kvs1"
      using iteratee_Obj by blast
    moreover have "distinct (map fst props)" "map_of props key = Some (Arr xs)"
      using Cons.prems kv False by simp_all
    ultimately show ?thesis
      using Cons.IH [of kvs1] kv by simp
  qed
qed

lemma foldl_preserves_array:
  assumes "map_of okvs key = Some (Arr xs)"
      and "\<forall>layer\<in>set layers. \<exists>kvs. layer = Obj kvs \<and> (\<forall>w. (key, w) \<in> set kvs \<longrightarrow> isNil w)"
  shows "\<exists>okvs'. foldl (\<lambda>object source. baseMerge (Some customizer) object source)
                    (Obj okvs) layers = Obj okvs'
           \<and> map_of okvs' key = Some (Arr xs)"
  using assms
proof (induction layers arbitrary: okvs)
  case Nil
  then show ?case by simp
next
  case (Cons layer layers)
  from Cons.prems(2) obtain kvs where l: "layer = Obj kvs"
    and n: "\<forall>w. (key, w) \<in> set kvs \<longrightarrow> isNil w"
    by auto
  from baseFor_preserves_array [OF Cons.prems(1) n]
  obtain kvs1 where "baseMerge (Some customizer) (Obj okvs) layer = Obj kvs1"
    and m: "map_of kvs1 key = Some (Arr xs)"
    using l by (auto simp: baseMerge.simps)
  moreover have "\<forall>layer\<in>set layers. \<exists>kvs. layer = Obj kvs \<and> (\<forall>w. (key, w) \<in> set kvs \<longrightarrow> isNil w)"
    using Cons.prems(2) by simp
  ultimately show ?case
    using Cons.IH [of kvs1] by simp
qed

lemma static_array_survives:
  assumes path: "segments path = Some path'"
      and opts: "opts' = (if opts = Undefined then Obj [] else opts)"
      and layers: "valuesFromDb isClient opts' path' dynamicPart = Inr values"
      and absent: "\<forall>layer\<in>set values.
                     \<exists>kvs. layer = Obj kvs \<and> (\<forall>w. (key, w) \<in> set kvs \<longrightarrow> isNil w)"
      and static: "get staticPart path' = Obj skvs" "distinct (map fst skvs)"
        "map_of skvs key = Some (Arr xs)"
  shows "\<exists>r. createConfig isClient staticPart dynamicPart path opts Undefined = Inr r
           \<and> getProp r key = Arr xs"
proof (cases "values = []")
  case True
  with path opts layers static show ?thesis
    by (simp add: createConfig_def getProp_Obj)
next
  case False
  have objs: "\<forall>source\<in>set (Obj skvs # rev values). isPlainObject source"
    using absent by auto
  obtain kvs0 where k0: "baseMerge (Some customizer) (Obj []) (Obj skvs) = Obj kvs0"
    and m0: "map_of kvs0 key = Some (Arr xs)"
    using baseFor_puts_array [OF static(2,3), of "[]"] by (auto simp: baseMerge.simps)
  have "\<forall>layer\<in>set (rev values).
          \<exists>kvs. layer = Obj kvs \<and> (\<forall>w. (key, w) \<in> set kvs \<longrightarrow> isNil w)"
    using absent by simp
  from foldl_preserves_array [OF m0 this]
  obtain kvs' where "foldl (\<lambda>object source. baseMerge (Some customizer) object source)
                    (Obj kvs0) (rev values) = Obj kvs'"
    and "map_of kvs' key = Some (Arr xs)"
    by blast
  then have "\<exists>r. mergeWith (Obj []) (Obj skvs # rev values) customizer = Inr r
               \<and> getProp r key = Arr xs"
    unfolding mergeWith_objects [OF objs] using k0 by (simp add: getProp_Obj)
  with False path opts layers static(1) show ?thesis
    by (simp add: createConfig_def allValues_not_array)
qed

subsection \<open>Evaluation\<close>

lemmas get_simps = get_def baseGet_def getProp_def

lemmas getString_simps = getString_def castPath_def isKey_def reIsPlainProp_def isWordChar_def
  reIsDeepProp_def hasProp_def stringToPath_def isPlainChar_def emptyAhead_def

lemma mergeWith_unguarded:
  "guarded sources = Inr False \<Longrightarrow>
     mergeWith object sources c
       = Inr (foldl (\<lambda>object source.
                       if truthy source then baseMerge (Some c) object source else object)
                object sources)"
  by (simp add: mergeWith_def)

lemmas guarded_simps = guarded_def isIterateeCall_def isIterateeCallOnCustomizer_def
  getProp_def hasProp_def

lemmas merge_simps = customizer_def callCustomizer_def assignMergeValue_def getProp_def
  hasProp_def String.simps isArrayLike_def iteratee_def baseMergeDeep.simps baseMerge.simps

lemma usersSpec_height:
  "valueFromDb isClient opts [''screen'', ''height''] usersSpec = Inr (Str ''small'')"
  by (simp add: valueFromDb_def usersSpec_def users_def userDocument_def getString_simps get_simps)

lemma usersSpec_width:
  "valueFromDb isClient opts [''screen'', ''width''] usersSpec = Inr Undefined"
  by (simp add: valueFromDb_def usersSpec_def users_def userDocument_def getString_simps get_simps)

lemma usersSpec_screen:
  "valueFromDb isClient opts [''screen''] usersSpec = Inr (Obj [(''height'', Str ''small'')])"
  by (simp add: valueFromDb_def usersSpec_def users_def userDocument_def getString_simps get_simps)

lemma documentSpec_value:
  "valueFromDb isClient opts path' (documentSpec document)
     = Inr (getString document (join path'))"
  by (simp add: valueFromDb_def documentSpec_def)

lemma merge_large_small:
  "mergeWith (Obj []) [Str ''large'', Str ''small''] customizer
     = Inr (Obj [(''0'', Str ''s''), (''1'', Str ''m''), (''2'', Str ''a''), (''3'', Str ''l''),
                 (''4'', Str ''l'')])"
proof -
  have "guarded [Str ''large'', Str ''small''] = Inr False"
    by (simp add: guarded_simps)
  then show ?thesis
    by (simp add: mergeWith_unguarded merge_simps)
qed

text \<open>
  Two values are merged and the layer's is the string \<^verbatim>\<open>'caller'\<close>: the guard of
  \<^verbatim>\<open>_.mergeWith\<close> reads that member of the customizer, and the call ends with the
  \<open>TypeError\<close>.
\<close>

lemma caller_throws:
  "createConfig isClient (Obj [(''k'', Str ''x'')]) [documentSpec (Obj [(''k'', Str ''caller'')])]
     (PString ''k'') opts Undefined = Inl TypeError"
proof -
  have v: "valueFromDb isClient opts' [''k''] (documentSpec (Obj [(''k'', Str ''caller'')]))
             = Inr (Str ''caller'')" for opts'
    by (simp add: documentSpec_value getString_simps get_simps)
  have m: "mergeWith (Obj []) [Str ''x'', Str ''caller''] customizer = Inl TypeError"
    by (simp add: mergeWith_def guarded_simps)
  show ?thesis
    by (simp add: createConfig_def valuesFromDb_def v get_simps allValues_def m)
qed

subsection \<open>The claims\<close>

text \<open>
  Claim C1. The example of the documentation (lines 20-35). Where the layer and the
  defaults both hold a string, \<^verbatim>\<open>_.mergeWith({}, 'large', 'small', ...)\<close> copies the
  characters of each string into the fresh object under their indices: the call returns
  an object of the five characters of \<^verbatim>\<open>'small'\<close>, not the string. The two other calls of
  the example return what the documentation says. Whatever the values merged, the merge
  into \<^verbatim>\<open>{}\<close> returns a plain object or throws a \<open>TypeError\<close>.
\<close>

theorem C1_documented_example:
  "createConfig isClient defaults [usersSpec] (PString ''screen.height'') opts Undefined
     = Inr (Obj [(''0'', Str ''s''), (''1'', Str ''m''), (''2'', Str ''a''), (''3'', Str ''l''),
                 (''4'', Str ''l'')])
   \<and> createConfig isClient defaults [usersSpec] (PArray [''screen'', ''width'']) opts Undefined
     = Inr (Str ''medium'')
   \<and> createConfig isClient defaults [usersSpec] (PString ''screen'') opts Undefined
     = Inr (Obj [(''height'', Str ''small''), (''width'', Str ''medium'')])
   \<and> ((\<exists>kvs. mergeWith (Obj []) sources customizer = Inr (Obj kvs))
        \<or> mergeWith (Obj []) sources customizer = Inl TypeError)"
proof -
  have g: "get defaults [''screen'', ''height''] = Str ''large''"
    "get defaults [''screen'', ''width''] = Str ''medium''"
    "get defaults [''screen''] = Obj [(''height'', Str ''large''), (''width'', Str ''medium'')]"
    by (simp_all add: defaults_def get_simps)
  have m: "mergeWith (Obj [])
      [Obj [(''height'', Str ''large''), (''width'', Str ''medium'')],
       Obj [(''height'', Str ''small'')]]
      customizer = Inr (Obj [(''height'', Str ''small''), (''width'', Str ''medium'')])"
  proof -
    have "guarded [Obj [(''height'', Str ''large''), (''width'', Str ''medium'')],
                   Obj [(''height'', Str ''small'')]] = Inr False"
      by (simp add: guarded_simps)
    then show ?thesis
      by (simp add: mergeWith_unguarded merge_simps)
  qed
  have "(\<exists>kvs. mergeWith (Obj []) sources customizer = Inr (Obj kvs))
        \<or> mergeWith (Obj []) sources customizer = Inl TypeError"
    by (rule mergeWith_plain_object)
  then show ?thesis
    by (simp add: createConfig_def valuesFromDb_def usersSpec_height usersSpec_width
        usersSpec_screen g allValues_def merge_large_small m)
qed

text \<open>
  Claim C2. The static configuration holds the array \<^verbatim>\<open>[1, 2, 3]\<close> at \<^verbatim>\<open>list\<close> and the
  layer's document the array \<^verbatim>\<open>[9]\<close>. The call for \<^verbatim>\<open>'list'\<close> returns the object
  \<^verbatim>\<open>{'0': 9}\<close>, not the array \<^verbatim>\<open>[9]\<close>: the values at the requested path are the sources of
  the merge, the customizer sees their properties only. One level down, for the path
  \<^verbatim>\<open>'a'\<close> and the arrays at \<^verbatim>\<open>a.list\<close>, the layer's array wins as a whole. No merge
  into \<^verbatim>\<open>{}\<close> returns an array.
\<close>

theorem C2_array_at_the_requested_path:
  "createConfig isClient (Obj [(''list'', Arr [Num 1, Num 2, Num 3])])
       [documentSpec (Obj [(''list'', Arr [Num 9])])] (PString ''list'') opts Undefined
     = Inr (Obj [(''0'', Num 9)])
   \<and> createConfig isClient (Obj [(''a'', Obj [(''list'', Arr [Num 1, Num 2, Num 3])])])
       [documentSpec (Obj [(''a'', Obj [(''list'', Arr [Num 9])])])] (PString ''a'') opts
       Undefined
     = Inr (Obj [(''list'', Arr [Num 9])])
   \<and> mergeWith (Obj []) sources customizer \<noteq> Inr (Arr xs)"
proof -
  have v: "valueFromDb isClient opts' [''list''] (documentSpec (Obj [(''list'', Arr [Num 9])]))
             = Inr (Arr [Num 9])"
    "valueFromDb isClient opts' [''a''] (documentSpec (Obj [(''a'', Obj [(''list'', Arr [Num 9])])]))
             = Inr (Obj [(''list'', Arr [Num 9])])" for opts'
    by (simp_all add: documentSpec_value getString_simps get_simps)
  have g: "get (Obj [(''list'', Arr [Num 1, Num 2, Num 3])]) [''list''] = Arr [Num 1, Num 2, Num 3]"
    "get (Obj [(''a'', Obj [(''list'', Arr [Num 1, Num 2, Num 3])])]) [''a'']
       = Obj [(''list'', Arr [Num 1, Num 2, Num 3])]"
    by (simp_all add: get_simps)
  have m: "mergeWith (Obj []) [Num 3, Num 2, Num 1, Arr [Num 9]] customizer
             = Inr (Obj [(''0'', Num 9)])"
    "mergeWith (Obj []) [Obj [(''list'', Arr [Num 1, Num 2, Num 3])], Obj [(''list'', Arr [Num 9])]]
       customizer = Inr (Obj [(''list'', Arr [Num 9])])"
  proof -
    have "guarded [Num 3, Num 2, Num 1, Arr [Num 9]] = Inr False"
      by (simp add: guarded_simps)
    then show "mergeWith (Obj []) [Num 3, Num 2, Num 1, Arr [Num 9]] customizer
                 = Inr (Obj [(''0'', Num 9)])"
      by (simp add: mergeWith_unguarded merge_simps eq_Arr)
    have "guarded [Obj [(''list'', Arr [Num 1, Num 2, Num 3])], Obj [(''list'', Arr [Num 9])]]
            = Inr False"
      by (simp add: guarded_simps)
    then show "mergeWith (Obj [])
        [Obj [(''list'', Arr [Num 1, Num 2, Num 3])], Obj [(''list'', Arr [Num 9])]]
        customizer = Inr (Obj [(''list'', Arr [Num 9])])"
      by (simp add: mergeWith_unguarded merge_simps eq_Arr)
  qed
  have "mergeWith (Obj []) sources customizer \<noteq> Inr (Arr xs)"
    using mergeWith_plain_object [of sources customizer] by auto
  then show ?thesis
    by (simp add: createConfig_def valuesFromDb_def v g allValues_def m)
qed

text \<open>
  Claim C3. When every layer is read without an error, one of them yields a value that
  is neither \<open>undefined\<close> nor \<open>null\<close>, and the static configuration has nothing at the
  path, the call fails with \<open>UndefinedStaticFallbackError\<close>.
\<close>

theorem C3_missing_static_fallback:
  assumes path: "segments path = Some path'"
      and opts: "opts' = (if opts = Undefined then Obj [] else opts)"
      and all: "\<forall>spec\<in>set dynamicPart. \<exists>v. valueFromDb isClient opts' path' spec = Inr v"
      and one: "spec \<in> set dynamicPart" "valueFromDb isClient opts' path' spec = Inr v"
        "\<not> isNil v"
      and static: "get staticPart path' = Undefined"
  shows "createConfig isClient staticPart dynamicPart path opts Undefined
           = Inl UndefinedStaticFallbackError"
  using static by (intro static_nil_fails [OF path opts all one]) simp

theorem C3_witness:
  "valueFromDb False (Obj []) [''screen'', ''height''] usersSpec = Inr (Str ''small'')
   \<and> get (Obj [(''theme'', Str ''dark'')]) [''screen'', ''height''] = Undefined
   \<and> createConfig False (Obj [(''theme'', Str ''dark'')]) [usersSpec]
         (PString ''screen.height'') Undefined Undefined
       = Inl UndefinedStaticFallbackError"
proof -
  have v: "valueFromDb False (Obj []) [''screen'', ''height''] usersSpec = Inr (Str ''small'')"
    by (rule usersSpec_height)
  have g: "get (Obj [(''theme'', Str ''dark'')]) [''screen'', ''height''] = Undefined"
    by (simp add: get_simps)
  have "createConfig False (Obj [(''theme'', Str ''dark'')]) [usersSpec]
         (PString ''screen.height'') Undefined Undefined = Inl UndefinedStaticFallbackError"
    by (rule C3_missing_static_fallback
          [where path' = "[''screen'', ''height'']" and opts' = "Obj []" and spec = usersSpec
             and v = "Str ''small''"])
       (simp_all add: v g)
  with v g show ?thesis by simp
qed

text \<open>
  Claim C4. A collection that is neither a function nor a value with a \<^verbatim>\<open>find\<close> member
  makes the \<^verbatim>\<open>Error\<close> object of line 53, but no line throws it (lines 59 and 66 throw
  the ones of the selector and of the prefix). The call fails with the \<open>TypeError\<close> of
  calling \<^verbatim>\<open>findOne\<close> on that object, or earlier with the selector's error; no call at all
  fails with \<open>InvalidProviderError\<close>.
\<close>

theorem C4_invalid_provider_is_not_reported:
  "createConfig isClient staticPart
       [\<lparr>collection = CollectionValue \<lparr>hasFind = False, findOne = None\<rparr>,
         selector = SelectorValue (Obj []), pathPrefix = PUndefined\<rparr>]
       (PString s) opts config
     = Inl TypeError
   \<and> createConfig isClient staticPart
       [\<lparr>collection = CollectionValue \<lparr>hasFind = False, findOne = None\<rparr>,
         selector = SelectorValue Null, pathPrefix = PUndefined\<rparr>]
       (PString s) opts config
     = Inl InvalidSelectorError
   \<and> createConfig isClient staticPart dynamicPart path opts config
     \<noteq> Inl InvalidProviderError"
proof -
  have v: "valuesFromDb isClient opts' path' dynamicPart \<noteq> Inl InvalidProviderError"
    for opts' path'
    using mapSpecs_never [of "valueFromDb isClient opts' path'" InvalidProviderError dynamicPart]
      valueFromDb_never_InvalidProviderError
    by (auto simp: valuesFromDb_def split: sum.splits)
  have m: "mergeWith (Obj []) sources customizer \<noteq> Inl InvalidProviderError" for sources
    using mergeWith_plain_object [of sources customizer] by auto
  have "createConfig isClient staticPart dynamicPart path opts config
          \<noteq> Inl InvalidProviderError"
  proof (cases "segments path")
    case None
    then show ?thesis by (simp add: createConfig_def)
  next
    case (Some path')
    define opts' where "opts' = (if opts = Undefined then Obj [] else opts)"
    show ?thesis
    proof (cases "valuesFromDb isClient opts' path' dynamicPart")
      case (Inl e)
      with v [of opts' path'] have "e \<noteq> InvalidProviderError" by simp
      with Some Inl show ?thesis by (simp add: createConfig_def opts'_def)
    next
      case (Inr vs)
      with Some m show ?thesis by (simp add: createConfig_def opts'_def Let_def)
    qed
  qed
  then show ?thesis
    by (simp add: createConfig_def valuesFromDb_def valueFromDb_def)
qed

text \<open>
  Claim C5. An absent path becomes the empty array of segments, and \<^verbatim>\<open>_.get\<close> of an
  empty path is \<open>undefined\<close>: with no layer, the call returns \<open>undefined\<close> for every static
  configuration, not the configuration. The layer of the documented example, read with
  its prefix alone, does yield the root of the user's settings; the call then fails for
  want of a static value.
\<close>

theorem C5_absent_path_yields_undefined:
  "segments PUndefined = Some []
   \<and> createConfig isClient staticPart [] PUndefined opts Undefined = Inr Undefined
   \<and> valueFromDb isClient opts [] usersSpec
       = Inr (Obj [(''screen'', Obj [(''height'', Str ''small'')])])
   \<and> createConfig isClient defaults [usersSpec] PUndefined opts Undefined
       = Inl UndefinedStaticFallbackError"
proof -
  have v: "valueFromDb isClient opts' [] usersSpec
             = Inr (Obj [(''screen'', Obj [(''height'', Str ''small'')])])" for opts'
    by (simp add: valueFromDb_def usersSpec_def users_def userDocument_def getString_simps
        get_simps)
  show ?thesis
    by (simp add: createConfig_def valuesFromDb_def v get_def baseGet_def)
qed

text \<open>
  Claim C6. \<^verbatim>\<open>concat\<close> spreads an array argument: when the static value is the array
  \<^verbatim>\<open>[1, 2, 3]\<close> and one layer yields \<^verbatim>\<open>[9]\<close>, the sequence given to the merge is
  \<^verbatim>\<open>3, 2, 1, [9]\<close>, not the static value followed by the layer's.
\<close>

theorem C6_static_array_is_spread:
  "allValues [Arr [Num 9]] (Arr [Num 1, Num 2, Num 3]) = [Num 3, Num 2, Num 1, Arr [Num 9]]
   \<and> allValues [Arr [Num 9]] (Arr [Num 1, Num 2, Num 3])
       \<noteq> rev ([Arr [Num 9]] @ [Arr [Num 1, Num 2, Num 3]])"
  by (simp add: allValues_def)

text \<open>
  Claim C7. The path \<^verbatim>\<open>'a.b.c'\<close> and the path \<^verbatim>\<open>['a','b','c']\<close> give the same result,
  whatever the static configuration, the layers and the options; so do every string and
  the array of its segments.
\<close>

theorem C7_path_equivalence:
  "createConfig isClient staticPart dynamicPart (PString ''a.b.c'') opts config
     = createConfig isClient staticPart dynamicPart (PArray [''a'', ''b'', ''c'']) opts config
   \<and> createConfig isClient staticPart dynamicPart (PString s) opts config
     = createConfig isClient staticPart dynamicPart (PArray (split s)) opts config"
  by (simp add: createConfig_def)

text \<open>
  Claim C8. With an empty \<^verbatim>\<open>dynamicPart\<close>, the call for a path of at least one segment
  returns the lookup of the specification, for the array of segments and for the dotted
  string that spells them. For the path of no segment the lookup of the specification is
  the root, the static configuration itself, and the call returns \<open>undefined\<close>: the
  defect of claim C5.
\<close>

theorem C8_no_layers_lookup:
  "(path \<noteq> []
      \<longrightarrow> createConfig isClient staticPart [] (PArray path) opts Undefined
            = Inr (specLookup staticPart path))
   \<and> (path \<noteq> [] \<and> dotFree path
      \<longrightarrow> createConfig isClient staticPart [] (PString (join path)) opts Undefined
            = Inr (specLookup staticPart path))
   \<and> specLookup defaults [] = defaults
   \<and> createConfig isClient defaults [] PUndefined opts Undefined = Inr Undefined
   \<and> createConfig isClient defaults [] (PArray []) opts Undefined = Inr Undefined"
  by (simp add: createConfig_def valuesFromDb_Nil get_specLookup split_join)
     (simp add: get_def baseGet_def)

theorem C8_witness:
  "createConfig False defaults [] (PArray [''screen'', ''height'']) Undefined Undefined
     = Inr (Str ''large'')
   \<and> createConfig False defaults [] (PString ''screen.height'') Undefined Undefined
     = Inr (Str ''large'')"
proof -
  have p: "[''screen'', ''height''] \<noteq> []" "dotFree [''screen'', ''height'']"
    by (simp_all add: dotFree_def)
  have l: "specLookup defaults [''screen'', ''height''] = Str ''large''"
    by (simp add: defaults_def)
  from C8_no_layers_lookup [of "[''screen'', ''height'']" False defaults Undefined] p l
  show ?thesis by simp
qed

text \<open>
  Claim C9. In a merge with the customizer of lines 89-103, when the destination holds
  an array at a key and the source holds \<open>null\<close>, \<open>undefined\<close> or nothing at that key, the
  result holds the same array at the key.
\<close>

theorem C9_absent_or_null_keeps_array:
  assumes earlier: "getProp (Obj earlier) key = Arr xs"
      and wf: "distinct (map fst later)"
      and later: "isNil (getProp (Obj later) key)"
  shows "getProp (baseMerge (Some customizer) (Obj earlier) (Obj later)) key = Arr xs"
proof -
  from earlier have e: "map_of earlier key = Some (Arr xs)"
    by (simp add: getProp_Obj split: option.splits)
  have l: "\<forall>v. (key, v) \<in> set later \<longrightarrow> isNil v"
  proof (intro allI impI)
    fix v assume "(key, v) \<in> set later"
    with wf have "map_of later key = Some v" by simp
    with later show "isNil v" by (simp add: getProp_Obj)
  qed
  from baseFor_preserves_array [OF e l] show ?thesis
    by (auto simp: getProp_Obj baseMerge.simps)
qed

theorem C9_witness:
  "getProp (baseMerge (Some customizer)
              (Obj [(''list'', Arr [Num 1, Num 2]), (''size'', Num 2)])
              (Obj [(''list'', Null), (''size'', Num 3)])) ''list''
     = Arr [Num 1, Num 2]"
  by (rule C9_absent_or_null_keeps_array) (simp_all add: getProp_def)



end
